theory Spec2Isabelle
  imports Main
begin

section \<open>Python values, exceptions and dictionaries\<close>

text \<open>
  The wrapper in \<^verbatim>\<open>pycos.py\<close> passes dictionaries between its caller and the
  object-storage client. A dictionary is an association list from field names to
  dynamically typed values; an exception is its class name with its argument.
\<close>

datatype exn = Exn (exn_class: string) (exn_arg: string)

datatype pyval =
    PNone
  | PBool bool
  | PInt int
  | PStr string
  | PList "pyval list"
  | PDict "(string \<times> pyval) list"

type_synonym pydict = "(string \<times> pyval) list"

definition KeyError :: "string \<Rightarrow> exn" where
  "KeyError k = Exn ''KeyError'' k"

definition TypeError :: "string \<Rightarrow> exn" where
  "TypeError m = Exn ''TypeError'' m"

definition AttributeError :: "string \<Rightarrow> exn" where
  "AttributeError m = Exn ''AttributeError'' m"

text \<open>\<^verbatim>\<open>d[k]\<close> on a dictionary: the value, or \<^verbatim>\<open>KeyError\<close>.\<close>

definition dict_getitem :: "pydict \<Rightarrow> string \<Rightarrow> exn + pyval" where
  "dict_getitem d k = (case map_of d k of None \<Rightarrow> Inl (KeyError k) | Some v \<Rightarrow> Inr v)"

text \<open>\<^verbatim>\<open>v[k]\<close> with a string key on any value: only a dictionary can be indexed so.\<close>

definition getitem :: "pyval \<Rightarrow> string \<Rightarrow> exn + pyval" where
  "getitem v k =
     (case v of
        PDict d \<Rightarrow> dict_getitem d k
      | _ \<Rightarrow> Inl (TypeError ''indices must be integers or object is not subscriptable''))"

text \<open>Truth value of a value, as \<^verbatim>\<open>if v:\<close> tests it.\<close>

definition truthy :: "pyval \<Rightarrow> bool" where
  "truthy v =
     (case v of
        PNone \<Rightarrow> False
      | PBool b \<Rightarrow> b
      | PInt i \<Rightarrow> i \<noteq> 0
      | PStr s \<Rightarrow> s \<noteq> []
      | PList xs \<Rightarrow> xs \<noteq> []
      | PDict d \<Rightarrow> d \<noteq> [])"

text \<open>
  The elements a value yields when iterated: a list its elements, a string its
  characters, a dictionary its keys; the other values are not iterable.
\<close>

definition iterate :: "pyval \<Rightarrow> exn + pyval list" where
  "iterate v =
     (case v of
        PList xs \<Rightarrow> Inr xs
      | PStr s \<Rightarrow> Inr (map (\<lambda>c. PStr [c]) s)
      | PDict d \<Rightarrow> Inr (map (\<lambda>kv. PStr (fst kv)) d)
      | _ \<Rightarrow> Inl (TypeError ''object is not iterable''))"

text \<open>\<^verbatim>\<open>files += batch\<close> on a list \<^verbatim>\<open>files\<close>: extends it by the elements of \<^verbatim>\<open>batch\<close>.\<close>

definition list_iadd :: "pyval list \<Rightarrow> pyval \<Rightarrow> exn + pyval list" where
  "list_iadd files batch =
     (case iterate batch of Inl e \<Rightarrow> Inl e | Inr xs \<Rightarrow> Inr (files @ xs))"

section \<open>The object-storage client as a capability\<close>

text \<open>
  The client (\<^verbatim>\<open>self.cos\<close>) is an external collaborator. Each of its operations is a
  function of the service's state \<open>'s\<close> that raises or returns, and leaves a new state.
\<close>

record request =
  Bucket :: string
  MaxKeys :: int
  ContinuationToken :: pyval

type_synonym 's list_objects_v2 = "'s \<Rightarrow> request \<Rightarrow> (exn + pydict) \<times> 's"

type_synonym 's list_buckets_extended = "'s \<Rightarrow> (exn + pydict) \<times> 's"

text \<open>
  A test double around an operation: it behaves as the operation does and appends
  every call, with its outcome, to a log kept beside the service's state.
\<close>

definition recording ::
  "('s \<Rightarrow> 'q \<Rightarrow> 'r \<times> 's) \<Rightarrow> ('s \<times> ('q \<times> 'r) list) \<Rightarrow> 'q \<Rightarrow> 'r \<times> ('s \<times> ('q \<times> 'r) list)" where
  "recording f sl q =
     (case sl of (s, log) \<Rightarrow>
        (case f s q of (r, s') \<Rightarrow> (r, (s', log @ [(q, r)]))))"

section \<open>COSAdmin\<close>

subsection \<open>bucket_list\<close>

definition bucket_list :: "'s list_buckets_extended \<Rightarrow> 's \<Rightarrow> (exn + pyval) \<times> 's" where
  "bucket_list list_buckets_extended s =
     (case list_buckets_extended s of
        (Inl e, s') \<Rightarrow> (Inl e, s')
      | (Inr rsp, s') \<Rightarrow>
          (if ''Buckets'' \<in> set (map fst rsp) then (dict_getitem rsp ''Buckets'', s')
           else (Inr (PList []), s')))"

subsection \<open>bucket_contents\<close>

text \<open>
  The loop of \<^verbatim>\<open>bucket_contents\<close>, on its variables \<^verbatim>\<open>more_results\<close>,
  \<^verbatim>\<open>next_token\<close> and \<^verbatim>\<open>files\<close> and the service's state. The loop may run
  forever, so its result is optional: \<open>None\<close> is a loop that never ends.
\<close>

partial_function (option) bucket_contents_while ::
  "'s list_objects_v2 \<Rightarrow> string \<Rightarrow> int \<Rightarrow> bool \<Rightarrow> pyval \<Rightarrow> pyval list \<Rightarrow> 's
     \<Rightarrow> ((exn + pyval list) \<times> 's) option" where
  "bucket_contents_while list_objects_v2 name max_keys more_results next_token files s =
     (if more_results then
        (case list_objects_v2 s
                \<lparr>Bucket = name, MaxKeys = max_keys, ContinuationToken = next_token\<rparr> of
           (Inl e, s') \<Rightarrow> Some (Inl e, s')
         | (Inr response, s') \<Rightarrow>
             (case dict_getitem response ''Contents'' of
                Inl e \<Rightarrow> Some (Inl e, s')
              | Inr batch \<Rightarrow>
                  (case list_iadd files batch of
                     Inl e \<Rightarrow> Some (Inl e, s')
                   | Inr files' \<Rightarrow>
                       (case dict_getitem response ''IsTruncated'' of
                          Inl e \<Rightarrow> Some (Inl e, s')
                        | Inr truncated \<Rightarrow>
                            (if truthy truncated then
                               (case dict_getitem response ''NextContinuationToken'' of
                                  Inl e \<Rightarrow> Some (Inl e, s')
                                | Inr token \<Rightarrow>
                                    bucket_contents_while list_objects_v2 name max_keys
                                      True token files' s')
                             else
                               bucket_contents_while list_objects_v2 name max_keys
                                 False (PStr []) files' s')))))
      else Some (Inr files, s))"

declare bucket_contents_while.simps [code]

definition bucket_contents ::
  "'s list_objects_v2 \<Rightarrow> string \<Rightarrow> int \<Rightarrow> 's \<Rightarrow> ((exn + pyval list) \<times> 's) option" where
  "bucket_contents list_objects_v2 name max_keys s =
     bucket_contents_while list_objects_v2 name max_keys True (PStr []) [] s"

section \<open>COS\<close>

subsection \<open>Construction\<close>

text \<open>
  \<^verbatim>\<open>COS.__init__\<close> reads the credentials and, when no endpoint is passed, the
  endpoint from the configuration, and builds the client handle from them. Building
  the handle (\<^verbatim>\<open>ibm_boto3.client\<close>) is taken to succeed and to touch nothing.
\<close>

record client =
  aws_access_key_id :: pyval
  aws_secret_access_key :: pyval
  endpoint_url :: pyval

definition COS_init :: "pydict \<Rightarrow> pyval \<Rightarrow> exn + client" where
  "COS_init config endpoint =
     (case dict_getitem config ''cos_hmac_keys'' of
        Inl e \<Rightarrow> Inl e
      | Inr keys \<Rightarrow>
          (case getitem keys ''access_key_id'' of
             Inl e \<Rightarrow> Inl e
           | Inr hmac_key \<Rightarrow>
               (case getitem keys ''secret_access_key'' of
                  Inl e \<Rightarrow> Inl e
                | Inr hmac_secret \<Rightarrow>
                    (case (if endpoint = PNone then dict_getitem config ''endpoint''
                           else Inr endpoint) of
                       Inl e \<Rightarrow> Inl e
                     | Inr endpoint' \<Rightarrow>
                         Inr \<lparr>aws_access_key_id = hmac_key,
                              aws_secret_access_key = hmac_secret,
                              endpoint_url = endpoint'\<rparr>))))"

subsection \<open>url_from_location\<close>

text \<open>
  \<^verbatim>\<open>str.lower()\<close>, on the ASCII letters; the three recognised words are ASCII.
\<close>

definition ascii_lower :: "char \<Rightarrow> char" where
  "ascii_lower c =
     (case map_of (zip ''ABCDEFGHIJKLMNOPQRSTUVWXYZ'' ''abcdefghijklmnopqrstuvwxyz'') c of
        None \<Rightarrow> c
      | Some l \<Rightarrow> l)"

definition str_lower :: "string \<Rightarrow> string" where
  "str_lower s = map ascii_lower s"

text \<open>
  \<^verbatim>\<open>requests.get(url)\<close> followed by \<^verbatim>\<open>rsp.json()\<close> is one operation of the
  outside world: it raises or returns the parsed body.
\<close>

type_synonym 's http_get_json = "'s \<Rightarrow> pyval \<Rightarrow> (exn + pyval) \<times> 's"

definition then_getitem :: "exn + pyval \<Rightarrow> string \<Rightarrow> exn + pyval" where
  "then_getitem r k = (case r of Inl e \<Rightarrow> Inl e | Inr v \<Rightarrow> getitem v k)"

definition url_from_location ::
  "'s http_get_json \<Rightarrow> pydict \<Rightarrow> string \<Rightarrow> string \<Rightarrow> 's \<Rightarrow> (exn + pyval) \<times> 's" where
  "url_from_location http_get_json config location url_type s =
     (if str_lower url_type \<notin> set [''public'', ''private'', ''direct''] then (Inr PNone, s)
      else
        (case dict_getitem config ''endpoints'' of
           Inl e \<Rightarrow> (Inl e, s)
         | Inr endpoints \<Rightarrow>
             (case http_get_json s endpoints of
                (Inl e, s') \<Rightarrow> (Inl e, s')
              | (Inr jsn, s') \<Rightarrow>
                  (case then_getitem (then_getitem (then_getitem (then_getitem
                          (getitem jsn ''service-endpoints'') ''regional'') location)
                          url_type) location of
                     Inl e \<Rightarrow> (Inl e, s')
                   | Inr url \<Rightarrow>
                       (case url of
                          PStr u \<Rightarrow> (Inr (PStr (''https://'' @ u)), s')
                        | _ \<Rightarrow> (Inl (TypeError ''can only concatenate str to str''), s'))))))"

section \<open>COSReader\<close>

subsection \<open>The local machine\<close>

text \<open>
  What the reader touches outside itself: the directories and regular files of the
  local file system, the file objects that are open, the names the temporary-name
  generator will yield next, and the remote objects. \<open>close_fault\<close> tells which
  file objects the operating system will fail to close, and with what error.
\<close>

record world =
  directories :: "string set"
  regular_files :: "string \<rightharpoonup> string"
  open_handles :: "nat set"
  next_handle :: nat
  temp_names :: "string list"
  close_fault :: "nat \<rightharpoonup> exn"
  remote_objects :: "string \<times> string \<rightharpoonup> string"

definition startswith_sep :: "string \<Rightarrow> bool" where
  "startswith_sep p = (case p of [] \<Rightarrow> False | c # cs \<Rightarrow> c = CHR ''/'')"

definition endswith_sep :: "string \<Rightarrow> bool" where
  "endswith_sep p = (case rev p of [] \<Rightarrow> False | c # cs \<Rightarrow> c = CHR ''/'')"

text \<open>\<^verbatim>\<open>os.path.join(a, b)\<close> of \<^verbatim>\<open>posixpath\<close>: an absolute \<^verbatim>\<open>b\<close> discards \<^verbatim>\<open>a\<close>.\<close>

definition path_join :: "string \<Rightarrow> string \<Rightarrow> string" where
  "path_join a b =
     (if startswith_sep b then b
      else if a = [] \<or> endswith_sep a then a @ b
      else a @ ''/'' @ b)"

definition gettempdir :: string where
  "gettempdir = ''/tmp''"

text \<open>
  \<^verbatim>\<open>tempfile.mkdtemp()\<close>: takes candidate names until one is free, creates the
  directory \<^verbatim>\<open>/tmp/tmp<name>\<close> and returns its path; it raises when the names run out.
\<close>

fun mkdtemp_names :: "string list \<Rightarrow> world \<Rightarrow> (exn + string) \<times> world" where
  "mkdtemp_names [] w =
     (Inl (Exn ''FileExistsError'' ''No usable temporary directory name found''),
      w\<lparr>temp_names := []\<rparr>)"
| "mkdtemp_names (n # ns) w =
     (let file = path_join gettempdir (''tmp'' @ n) in
      if file \<in> directories w \<or> regular_files w file \<noteq> None then mkdtemp_names ns w
      else (Inr file, w\<lparr>directories := insert file (directories w), temp_names := ns\<rparr>))"

definition mkdtemp :: "world \<Rightarrow> (exn + string) \<times> world" where
  "mkdtemp w = mkdtemp_names (temp_names w) w"

text \<open>\<^verbatim>\<open>open(path)\<close> for reading: a new file object on an existing regular file.\<close>

definition py_open :: "string \<Rightarrow> world \<Rightarrow> (exn + nat) \<times> world" where
  "py_open path w =
     (if regular_files w path \<noteq> None then
        (Inr (next_handle w),
         w\<lparr>open_handles := insert (next_handle w) (open_handles w),
           next_handle := Suc (next_handle w)\<rparr>)
      else if path \<in> directories w then (Inl (Exn ''IsADirectoryError'' path), w)
      else (Inl (Exn ''FileNotFoundError'' path), w))"

text \<open>
  \<^verbatim>\<open>f.close()\<close>: nothing on a closed file object; otherwise the descriptor is
  released, also when the operating system reports an error, which is then raised.
\<close>

definition file_close :: "nat \<Rightarrow> world \<Rightarrow> exn option \<times> world" where
  "file_close f w =
     (if f \<in> open_handles w then (close_fault w f, w\<lparr>open_handles := open_handles w - {f}\<rparr>)
      else (None, w))"

text \<open>\<^verbatim>\<open>os.remove(path)\<close>: unlinks a regular file.\<close>

definition os_remove :: "string \<Rightarrow> world \<Rightarrow> exn option \<times> world" where
  "os_remove path w =
     (if regular_files w path \<noteq> None then
        (None, w\<lparr>regular_files := (regular_files w)(path := None)\<rparr>)
      else if path \<in> directories w then (Some (Exn ''IsADirectoryError'' path), w)
      else (Some (Exn ''FileNotFoundError'' path), w))"

text \<open>
  \<^verbatim>\<open>self.cos.download_file(bucket, key, filename)\<close> belongs to the client: it is a
  parameter of the reader's operations, and may do to the machine whatever it does.
\<close>

type_synonym download_file = "string \<Rightarrow> string \<Rightarrow> string \<Rightarrow> world \<Rightarrow> exn option \<times> world"

subsection \<open>The reader\<close>

record COSReader =
  self_bucket :: string
  self_key :: string
  self_open_file :: "nat option"
  self_tmp :: string
  self_config :: pydict
  self_cos :: client

definition COSReader_init ::
  "pydict \<Rightarrow> string \<Rightarrow> string \<Rightarrow> world \<Rightarrow> (exn + COSReader) \<times> world" where
  "COSReader_init config bucket key w =
     (case mkdtemp w of
        (Inl e, w') \<Rightarrow> (Inl e, w')
      | (Inr d, w') \<Rightarrow>
          (case COS_init config PNone of
             Inl e \<Rightarrow> (Inl e, w')
           | Inr c \<Rightarrow>
               (Inr \<lparr>self_bucket = bucket, self_key = key, self_open_file = None,
                     self_tmp = path_join d key, self_config = config, self_cos = c\<rparr>,
                w')))"

definition COSReader_enter ::
  "download_file \<Rightarrow> COSReader \<Rightarrow> world \<Rightarrow> (exn + nat) \<times> COSReader \<times> world" where
  "COSReader_enter download_file self w =
     (case download_file (self_bucket self) (self_key self) (self_tmp self) w of
        (Some e, w') \<Rightarrow> (Inl e, self, w')
      | (None, w') \<Rightarrow>
          (case py_open (self_tmp self) w' of
             (Inl e, w'') \<Rightarrow> (Inl e, self, w'')
           | (Inr f, w'') \<Rightarrow> (Inr f, self\<lparr>self_open_file := Some f\<rparr>, w'')))"

definition COSReader_exit :: "COSReader \<Rightarrow> world \<Rightarrow> exn option \<times> world" where
  "COSReader_exit self w =
     (case self_open_file self of
        None \<Rightarrow> (Some (AttributeError ''NoneType object has no attribute close''), w)
      | Some f \<Rightarrow>
          (case file_close f w of
             (Some e, w') \<Rightarrow> (Some e, w')
           | (None, w') \<Rightarrow> os_remove (self_tmp self) w'))"

text \<open>
  \<^verbatim>\<open>with reader as f: body\<close>. The body is not run when \<^verbatim>\<open>__enter__\<close> raises, and
  then \<^verbatim>\<open>__exit__\<close> is not called. Otherwise \<^verbatim>\<open>__exit__\<close> is called however the
  body ends; it returns \<^verbatim>\<open>None\<close>, so an exception of the body is raised again, and
  an exception of \<^verbatim>\<open>__exit__\<close> itself takes its place.
\<close>

definition with_COSReader ::
  "download_file \<Rightarrow> COSReader \<Rightarrow> (nat \<Rightarrow> world \<Rightarrow> (exn + 'a) \<times> world) \<Rightarrow> world
     \<Rightarrow> (exn + 'a) \<times> COSReader \<times> world" where
  "with_COSReader download_file self body w =
     (case COSReader_enter download_file self w of
        (Inl e, self', w') \<Rightarrow> (Inl e, self', w')
      | (Inr f, self', w') \<Rightarrow>
          (case body f w' of
             (result, w'') \<Rightarrow>
               (case COSReader_exit self' w'' of
                  (Some e, w''') \<Rightarrow> (Inl e, self', w''')
                | (None, w''') \<Rightarrow> (result, self', w'''))))"

section \<open>Observations on a run\<close>

text \<open>
  A logged call of \<^verbatim>\<open>list_objects_v2\<close> is the request with its outcome. What it
  delivered are the entries of its page; only a page whose \<^verbatim>\<open>Contents\<close> can be
  iterated delivers entries.
\<close>

type_synonym call = "request \<times> (exn + pydict)"

definition page_entries :: "call \<Rightarrow> pyval list" where
  "page_entries c =
     (case snd c of
        Inl e \<Rightarrow> []
      | Inr page \<Rightarrow>
          (case dict_getitem page ''Contents'' of
             Inl e \<Rightarrow> []
           | Inr batch \<Rightarrow> (case iterate batch of Inl e \<Rightarrow> [] | Inr xs \<Rightarrow> xs)))"

text \<open>
  The service settles within \<open>n\<close> requests when, fed each page's continuation token in
  turn, one of its first \<open>n\<close> answers is a failure or a page that is not truncated.
\<close>

fun settles_within :: "nat \<Rightarrow> 's list_objects_v2 \<Rightarrow> string \<Rightarrow> int \<Rightarrow> pyval \<Rightarrow> 's \<Rightarrow> bool" where
  "settles_within 0 f name max_keys token s = False"
| "settles_within (Suc n) f name max_keys token s =
     (case f s \<lparr>Bucket = name, MaxKeys = max_keys, ContinuationToken = token\<rparr> of
        (Inl e, s') \<Rightarrow> True
      | (Inr page, s') \<Rightarrow>
          (case dict_getitem page ''IsTruncated'' of
             Inl e \<Rightarrow> False
           | Inr truncated \<Rightarrow>
               (if truthy truncated then
                  (case dict_getitem page ''NextContinuationToken'' of
                     Inl e \<Rightarrow> False
                   | Inr token' \<Rightarrow> settles_within n f name max_keys token' s')
                else True)))"


text \<open>
  A log is chained when every call but the last returned a truncated page and the call
  after it carries that page's continuation token: no call repeats another, and none
  follows a failure.
\<close>

fun chained :: "call list \<Rightarrow> bool" where
  "chained (c # c' # cs) =
     ((case snd c of
         Inl e \<Rightarrow> False
       | Inr page \<Rightarrow>
           (case dict_getitem page ''IsTruncated'' of Inl e \<Rightarrow> False | Inr t \<Rightarrow> truthy t)
           \<and> dict_getitem page ''NextContinuationToken'' = Inr (ContinuationToken (fst c')))
      \<and> chained (c' # cs))"
| "chained cs = True"


text \<open>
  The two invariants that make a recording client an observer: its run and the run of
  the client it wraps end alike.
\<close>

definition plain_inv ::
  "('s \<times> call list) list_objects_v2 \<Rightarrow> string \<Rightarrow> int \<Rightarrow> bool \<Rightarrow> pyval \<Rightarrow> pyval list
     \<Rightarrow> 's \<times> call list \<Rightarrow> (exn + pyval list) \<times> 's \<times> call list \<Rightarrow> bool" where
  "plain_inv f name mk going tok files sl y =
     (\<forall>g. f = recording g \<longrightarrow>
        bucket_contents_while g name mk going tok files (fst sl) = Some (fst y, fst (snd y)))"

definition rec_inv ::
  "'s list_objects_v2 \<Rightarrow> string \<Rightarrow> int \<Rightarrow> bool \<Rightarrow> pyval \<Rightarrow> pyval list
     \<Rightarrow> 's \<Rightarrow> (exn + pyval list) \<times> 's \<Rightarrow> bool" where
  "rec_inv g name mk going tok files s y =
     (\<forall>log. \<exists>log'. bucket_contents_while (recording g) name mk going tok files (s, log)
         = Some (fst y, snd y, log'))"

section \<open>Test doubles\<close>

definition demo_pages :: "nat list_objects_v2" where
  "demo_pages s q =
     (if ContinuationToken q = PStr [] then
        (Inr [(''Contents'', PList [PStr ''a'', PStr ''b'']), (''IsTruncated'', PBool True),
              (''NextContinuationToken'', PStr ''t1'')], Suc s)
      else if ContinuationToken q = PStr ''t1'' then
        (Inr [(''Contents'', PList [PStr ''c'']), (''IsTruncated'', PBool False)], Suc s)
      else (Inl (Exn ''ClientError'' ''InvalidArgument''), Suc s))"

definition demo_pages_then_empty :: "nat list_objects_v2" where
  "demo_pages_then_empty s q =
     (if ContinuationToken q = PStr [] then
        (Inr [(''Contents'', PList [PStr ''a'', PStr ''b'']), (''IsTruncated'', PBool True),
              (''NextContinuationToken'', PStr ''t1'')], Suc s)
      else (Inr [(''KeyCount'', PInt 0), (''IsTruncated'', PBool False)], Suc s))"

definition demo_single_page :: "nat list_objects_v2" where
  "demo_single_page s q =
     (Inr [(''Contents'', PList [PStr ''a'', PStr ''b'', PStr ''c'']),
           (''IsTruncated'', PBool False)], Suc s)"

definition demo_list_buckets :: "nat list_buckets_extended" where
  "demo_list_buckets s =
     (Inr [(''Owner'', PStr ''me''), (''Buckets'', PList [PStr ''demo'', PStr ''logs''])], Suc s)"

definition demo_http_get_json :: "nat http_get_json" where
  "demo_http_get_json s url =
     (Inr (PDict [(''service-endpoints'',
             PDict [(''regional'',
               PDict [(''us-south'',
                 PDict [(''public'', PDict [(''us-south'', PStr ''s3.us-south.example.net'')])])])])]),
      Suc s)"

definition demo_config :: pydict where
  "demo_config =
     [(''cos_hmac_keys'', PDict [(''access_key_id'', PStr ''id''),
                               (''secret_access_key'', PStr ''secret'')]),
      (''endpoint'', PStr ''https://s3.example.net''),
      (''endpoints'', PStr ''https://control.example.net/endpoints'')]"

text \<open>A client whose download writes the object's body to the path, or raises when
  the object does not exist.\<close>

definition demo_download_file :: download_file where
  "demo_download_file b k filename w =
     (case remote_objects w (b, k) of
        None \<Rightarrow> (Some (Exn ''ClientError'' ''404 Not Found''), w)
      | Some body \<Rightarrow> (None, w\<lparr>regular_files := (regular_files w)(filename \<mapsto> body)\<rparr>))"

definition demo_world :: world where
  "demo_world =
     \<lparr>directories = {''/tmp''}, regular_files = Map.empty, open_handles = {},
      next_handle = 3, temp_names = [''abcd1234'', ''efgh5678''], close_fault = Map.empty,
      remote_objects = [(''demo'', ''a.txt'') \<mapsto> ''hello'']\<rparr>"

definition demo_client :: client where
  "demo_client =
     \<lparr>aws_access_key_id = PStr ''id'', aws_secret_access_key = PStr ''secret'',
      endpoint_url = PStr ''https://s3.example.net''\<rparr>"

definition demo_reader :: "string \<Rightarrow> string \<Rightarrow> COSReader" where
  "demo_reader k filename =
     \<lparr>self_bucket = ''demo'', self_key = k, self_open_file = None, self_tmp = filename,
      self_config = demo_config, self_cos = demo_client\<rparr>"

definition demo_body_raises :: "nat \<Rightarrow> world \<Rightarrow> (exn + unit) \<times> world" where
  "demo_body_raises f w = (Inl (Exn ''ValueError'' ''bad line''), w)"

definition demo_body_returns :: "nat \<Rightarrow> world \<Rightarrow> (exn + unit) \<times> world" where
  "demo_body_returns f w = (Inr (), w)"

definition demo_world_close_fails :: world where
  "demo_world_close_fails =
     \<lparr>directories = {''/tmp'', ''/tmp/tmpabcd1234''},
      regular_files = [''/tmp/tmpabcd1234/a.txt'' \<mapsto> ''hello''],
      open_handles = {3}, next_handle = 4, temp_names = [''efgh5678''],
      close_fault = [3 \<mapsto> Exn ''OSError'' ''Input/output error''],
      remote_objects = [(''demo'', ''a.txt'') \<mapsto> ''hello'']\<rparr>"

text \<open>
  The service's answer for a bucket that holds nothing: a page without
  \<^verbatim>\<open>Contents\<close>.
\<close>

definition demo_empty_bucket :: "nat list_objects_v2" where
  "demo_empty_bucket s q =
     (Inr [(''KeyCount'', PInt 0), (''IsTruncated'', PBool False)], Suc s)"


section \<open>The pagination loop, step by step\<close>

lemma while_False: "bucket_contents_while f name mk False tok files s = Some (Inr files, s)"
  by (subst bucket_contents_while.simps) simp

lemma while_True:
  "bucket_contents_while f name mk True tok files s =
     (case f s \<lparr>Bucket = name, MaxKeys = mk, ContinuationToken = tok\<rparr> of
        (Inl e, s') \<Rightarrow> Some (Inl e, s')
      | (Inr response, s') \<Rightarrow>
          (case dict_getitem response ''Contents'' of
             Inl e \<Rightarrow> Some (Inl e, s')
           | Inr batch \<Rightarrow>
               (case list_iadd files batch of
                  Inl e \<Rightarrow> Some (Inl e, s')
                | Inr files' \<Rightarrow>
                    (case dict_getitem response ''IsTruncated'' of
                       Inl e \<Rightarrow> Some (Inl e, s')
                     | Inr truncated \<Rightarrow>
                         (if truthy truncated then
                            (case dict_getitem response ''NextContinuationToken'' of
                               Inl e \<Rightarrow> Some (Inl e, s')
                             | Inr token \<Rightarrow> bucket_contents_while f name mk True token files' s')
                          else Some (Inr files', s'))))))"
  by (subst bucket_contents_while.simps) (simp add: while_False split: prod.splits sum.splits)


lemma settles_terminates:
  "settles_within n g name mk tok s \<Longrightarrow>
   \<exists>out s' new. bucket_contents_while (recording g) name mk True tok files (s, log)
        = Some (out, s', log @ new)
      \<and> new \<noteq> [] \<and> length new \<le> n \<and> chained new
      \<and> fst (hd new) = \<lparr>Bucket = name, MaxKeys = mk, ContinuationToken = tok\<rparr>
      \<and> (\<forall>e. snd (last new) = Inl e \<longrightarrow> out = Inl e)"
proof (induction n arbitrary: tok files s log)
  case 0
  then show ?case by simp
next
  case (Suc n)
  let ?q = "\<lparr>Bucket = name, MaxKeys = mk, ContinuationToken = tok\<rparr>"
  obtain r s' where g: "g s ?q = (r, s')" by (cases "g s ?q")
  have rec: "recording g (s, log) ?q = (r, (s', log @ [(?q, r)]))"
    using g by (simp add: recording_def)
  let ?loop = "bucket_contents_while (recording g) name mk True tok files (s, log)"
  have one: "\<exists>out s' new. ?loop = Some (out, s', log @ new)
      \<and> new \<noteq> [] \<and> length new \<le> Suc n \<and> chained new \<and> fst (hd new) = ?q
      \<and> (\<forall>e. snd (last new) = Inl e \<longrightarrow> out = Inl e)"
    if "?loop = Some (out, s', log @ [(?q, r)])" and "\<And>e. r = Inl e \<Longrightarrow> out = Inl e" for out
    using that by (intro exI [of _ out] exI [of _ s'] exI [of _ "[(?q, r)]"]) simp
  show ?case
  proof (cases r)
    case (Inl e)
    then show ?thesis using rec by (intro one) (simp_all add: while_True)
  next
    case (Inr page)
    note r = Inr
    show ?thesis
    proof (cases "dict_getitem page ''Contents''")
      case (Inl e)
      then show ?thesis using rec r by (intro one) (simp_all add: while_True)
    next
      case (Inr batch)
      note batch = Inr
      show ?thesis
      proof (cases "iterate batch")
        case (Inl e)
        then show ?thesis using rec r batch
          by (intro one) (simp_all add: while_True list_iadd_def)
      next
        case (Inr xs)
        note xs = Inr
        from Suc.prems g r obtain t where t: "dict_getitem page ''IsTruncated'' = Inr t"
          by (auto split: sum.splits)
        show ?thesis
        proof (cases "truthy t")
          case False
          then show ?thesis using rec r batch xs t
            by (intro one) (simp_all add: while_True list_iadd_def)
        next
          case True
          with Suc.prems g r t obtain tok' where
            tok': "dict_getitem page ''NextContinuationToken'' = Inr tok'"
            and st: "settles_within n g name mk tok' s'"
            by (auto split: sum.splits)
          from Suc.IH [OF st, of "files @ xs" "log @ [(?q, r)]"]
          obtain out s'' new where
            run: "bucket_contents_while (recording g) name mk True tok' (files @ xs)
                    (s', log @ [(?q, r)]) = Some (out, s'', (log @ [(?q, r)]) @ new)"
            and new: "new \<noteq> []" "length new \<le> n" "chained new"
              "fst (hd new) = \<lparr>Bucket = name, MaxKeys = mk, ContinuationToken = tok'\<rparr>"
              "\<forall>e. snd (last new) = Inl e \<longrightarrow> out = Inl e"
            by blast
          have loop: "?loop = Some (out, s'', log @ ((?q, r) # new))"
            using rec r batch xs t True tok' run by (simp add: while_True list_iadd_def)
          from new obtain c cs where cs: "new = c # cs" by (cases new) auto
          have "chained ((?q, r) # new)"
            using new r t True tok' cs by simp
          with loop new show ?thesis
            by (intro exI [of _ out] exI [of _ s''] exI [of _ "(?q, r) # new"]) simp
        qed
      qed
    qed
  qed
qed



lemma recording_run_plain:
  assumes "bucket_contents_while (recording g) name mk going tok files (s, log) = Some (out, s', log')"
  shows "bucket_contents_while g name mk going tok files s = Some (out, s')"
proof -
  have "plain_inv (recording g) name mk going tok files (s, log) (out, s', log')"
  proof (rule bucket_contents_while.raw_induct [where P = plain_inv, OF _ assms], goal_cases)
    case (1 loop f name mk going tok files sl y)
    show ?case
      unfolding plain_inv_def
    proof (intro allI impI)
      fix g assume fg: "f = recording g"
      obtain s log where sl: "sl = (s, log)" by (cases sl)
      obtain out s' log' where y: "y = (out, s', log')" by (cases y)
      show "bucket_contents_while g name mk going tok files (fst sl) = Some (fst y, fst (snd y))"
        apply (subst bucket_contents_while.simps)
        using 1(2) 1(1) fg sl y
        apply (auto simp: recording_def plain_inv_def split: prod.splits sum.splits if_splits)
        done
    qed
  qed
  then show ?thesis by (simp add: plain_inv_def)
qed

lemma plain_run_recording:
  assumes "bucket_contents_while g name mk going tok files s = Some (out, s')"
  shows "\<exists>log'. bucket_contents_while (recording g) name mk going tok files (s, log) = Some (out, s', log')"
proof -
  have "rec_inv g name mk going tok files s (out, s')"
  proof (rule bucket_contents_while.raw_induct [where P = rec_inv, OF _ assms], goal_cases)
    case (1 loop g name mk going tok files s y)
    show ?case
      unfolding rec_inv_def
    proof
      fix log
      obtain out s' where y: "y = (out, s')" by (cases y)
      show "\<exists>log'. bucket_contents_while (recording g) name mk going tok files (s, log) = Some (fst y, snd y, log')"
        apply (subst bucket_contents_while.simps)
        using 1(2) 1(1) y
        apply (auto simp: recording_def rec_inv_def split: prod.splits sum.splits if_splits)
        done
    qed
  qed
  then show ?thesis by (simp add: rec_inv_def)
qed


lemma recording_observes:
  "(\<exists>log'. bucket_contents (recording g) name mk (s, log) = Some (out, s', log'))
     = (bucket_contents g name mk s = Some (out, s'))"
  unfolding bucket_contents_def
proof
  assume "\<exists>log'. bucket_contents_while (recording g) name mk True (PStr []) [] (s, log)
            = Some (out, s', log')"
  then obtain log' where
    "bucket_contents_while (recording g) name mk True (PStr []) [] (s, log) = Some (out, s', log')"
    ..
  then show "bucket_contents_while g name mk True (PStr []) [] s = Some (out, s')"
    by (rule recording_run_plain)
next
  assume "bucket_contents_while g name mk True (PStr []) [] s = Some (out, s')"
  then show "\<exists>log'. bucket_contents_while (recording g) name mk True (PStr []) [] (s, log)
            = Some (out, s', log')"
    by (rule plain_run_recording)
qed

section \<open>The local machine and the reader, step by step\<close>






section \<open>Evaluating the test doubles\<close>

lemmas page_simps =
  bucket_contents_def while_True dict_getitem_def list_iadd_def iterate_def truthy_def
  recording_def page_entries_def

lemmas demo_simps =
  demo_config_def demo_world_def demo_client_def demo_reader_def demo_download_file_def
  demo_body_raises_def demo_body_returns_def demo_world_close_fails_def

lemmas os_simps =
  mkdtemp_def path_join_def gettempdir_def startswith_sep_def endswith_sep_def
  py_open_def file_close_def os_remove_def Let_def

lemmas reader_simps =
  COSReader_init_def COSReader_enter_def COSReader_exit_def with_COSReader_def
  COS_init_def dict_getitem_def getitem_def

section \<open>Properties\<close>

subsection \<open>Listing returns the pages' entries, concatenated\<close>




subsection \<open>A download that fails on entering the scope\<close>

text \<open>
  C2, amended. When the download fails, \<^verbatim>\<open>__enter__\<close> raises the client's own
  exception unchanged and yields no file object (the body is not run and the reader's
  \<^verbatim>\<open>open_file\<close> stays as it was); the reader cleans nothing up: the machine is left
  exactly as the failed download left it.
\<close>

theorem enter_download_failure:
  assumes "download_file (self_bucket self) (self_key self) (self_tmp self) w = (Some e, w')"
  shows "COSReader_enter download_file self w = (Inl e, self, w')
       \<and> with_COSReader download_file self body w = (Inl e, self, w')"
  using assms by (simp add: COSReader_enter_def with_COSReader_def)

text \<open>
  The object \<^verbatim>\<open>missing.txt\<close> does not exist: the client's error comes out as it is.
\<close>

theorem enter_download_failure_witness:
  "demo_download_file ''demo'' ''missing.txt'' ''/tmp/tmpabcd1234/missing.txt'' demo_world
     = (Some (Exn ''ClientError'' ''404 Not Found''), demo_world)
   \<and> with_COSReader demo_download_file
        (demo_reader ''missing.txt'' ''/tmp/tmpabcd1234/missing.txt'') demo_body_returns demo_world
     = (Inl (Exn ''ClientError'' ''404 Not Found''),
        demo_reader ''missing.txt'' ''/tmp/tmpabcd1234/missing.txt'', demo_world)"
proof -
  have dl: "demo_download_file (self_bucket (demo_reader ''missing.txt'' ''/tmp/tmpabcd1234/missing.txt''))
      (self_key (demo_reader ''missing.txt'' ''/tmp/tmpabcd1234/missing.txt''))
      (self_tmp (demo_reader ''missing.txt'' ''/tmp/tmpabcd1234/missing.txt'')) demo_world
     = (Some (Exn ''ClientError'' ''404 Not Found''), demo_world)"
    by (simp add: demo_simps)
  from enter_download_failure [where download_file = demo_download_file
      and self = "demo_reader ''missing.txt'' ''/tmp/tmpabcd1234/missing.txt''"
      and body = demo_body_returns and w = demo_world, OF dl] dl
  show ?thesis
    by (simp add: demo_reader_def)
qed

text \<open>
  As first stated the claim fails. A reader is constructed for a key that does not
  exist and its scope is entered: what is raised is the client's \<^verbatim>\<open>ClientError\<close>, not
  a \<^verbatim>\<open>TransferError\<close>, and the temporary directory made at construction is still there.
\<close>

theorem download_failure_counterexample:
  "fst (COSReader_init demo_config ''demo'' ''missing.txt'' demo_world)
     = Inr (demo_reader ''missing.txt'' ''/tmp/tmpabcd1234/missing.txt'')
   \<and> fst (with_COSReader demo_download_file
        (demo_reader ''missing.txt'' ''/tmp/tmpabcd1234/missing.txt'') demo_body_returns
        (snd (COSReader_init demo_config ''demo'' ''missing.txt'' demo_world)))
     = Inl (Exn ''ClientError'' ''404 Not Found'')
   \<and> ''/tmp/tmpabcd1234'' \<in> directories (snd (snd (with_COSReader demo_download_file
        (demo_reader ''missing.txt'' ''/tmp/tmpabcd1234/missing.txt'') demo_body_returns
        (snd (COSReader_init demo_config ''demo'' ''missing.txt'' demo_world)))))"
  by (simp add: demo_simps os_simps reader_simps)

subsection \<open>Leaving the scope when closing fails\<close>




subsection \<open>What every way out of the body releases\<close>




subsection \<open>Constructing a reader\<close>




subsection \<open>An unrecognised kind of endpoint\<close>

text \<open>
  C6, amended. For every \<^verbatim>\<open>url_type\<close> whose lower-case form is none of
  \<^verbatim>\<open>public\<close>, \<^verbatim>\<open>private\<close>, \<^verbatim>\<open>direct\<close>, the lookup returns \<^verbatim>\<open>None\<close> and makes no
  HTTP call: the log of calls is as it was.
\<close>

theorem url_from_location_unrecognised:
  assumes "str_lower url_type \<notin> {''public'', ''private'', ''direct''}"
  shows "url_from_location (recording http_get_json) config location url_type (s, log)
           = (Inr PNone, (s, log))"
  using assms by (simp add: url_from_location_def)

theorem url_from_location_unrecognised_witness:
  "str_lower ''Cross-Region'' \<notin> {''public'', ''private'', ''direct''}
   \<and> url_from_location (recording demo_http_get_json) demo_config ''us-south'' ''Cross-Region''
        (0, []) = (Inr PNone, (0, []))"
proof -
  have h: "str_lower ''Cross-Region'' \<notin> {''public'', ''private'', ''direct''}"
    by (simp add: str_lower_def ascii_lower_def)
  from url_from_location_unrecognised [OF h] h show ?thesis by simp
qed

text \<open>
  As first stated the claim fails: \<^verbatim>\<open>PUBLIC\<close> is none of the three words, yet its
  lower-case form is one, so the HTTP call is made; the answer is then indexed with
  \<^verbatim>\<open>PUBLIC\<close> itself, which here raises \<^verbatim>\<open>KeyError\<close>.
\<close>

theorem url_from_location_counterexample:
  "''PUBLIC'' \<notin> {''public'', ''private'', ''direct''}
   \<and> fst (url_from_location (recording demo_http_get_json) demo_config ''us-south'' ''PUBLIC''
        (0, [])) = Inl (KeyError ''PUBLIC'')
   \<and> map fst (snd (snd (url_from_location (recording demo_http_get_json) demo_config
        ''us-south'' ''PUBLIC'' (0, [])))) = [PStr ''https://control.example.net/endpoints'']"
  by (simp add: url_from_location_def str_lower_def ascii_lower_def demo_config_def
        dict_getitem_def recording_def demo_http_get_json_def then_getitem_def getitem_def)

subsection \<open>The listing terminates\<close>

text \<open>
  C7. When the service settles within \<open>n\<close> requests (one of them fails, or returns a
  page that is not truncated), \<^verbatim>\<open>bucket_contents\<close> returns or raises. On that run it
  makes at most \<open>n\<close> requests, each after the first continuing from the page before
  it, and a request that fails is the last one and its failure is what is raised:
  nothing is retried.
\<close>

theorem bucket_contents_terminates:
  assumes "settles_within n list_objects_v2 name max_keys (PStr []) s"
  shows "\<exists>out s' log.
           bucket_contents list_objects_v2 name max_keys s = Some (out, s')
         \<and> bucket_contents (recording list_objects_v2) name max_keys (s, []) = Some (out, s', log)
         \<and> length log \<le> n \<and> chained log
         \<and> (\<forall>e. snd (last log) = Inl e \<longrightarrow> out = Inl e)"
proof -
  from settles_terminates [OF assms, of "[]" "[]"]
  obtain out s' log where
    run: "bucket_contents (recording list_objects_v2) name max_keys (s, []) = Some (out, s', log)"
    and log: "length log \<le> n" "chained log" "\<forall>e. snd (last log) = Inl e \<longrightarrow> out = Inl e"
    unfolding bucket_contents_def by auto
  from run have "bucket_contents list_objects_v2 name max_keys s = Some (out, s')"
    using recording_observes [of list_objects_v2 name max_keys s "[]" out s'] by blast
  with run log show ?thesis by blast
qed

theorem bucket_contents_terminates_witness:
  "settles_within 2 demo_pages ''demo'' 2 (PStr []) 0
   \<and> bucket_contents demo_pages ''demo'' 2 0
       = Some (Inr [PStr ''a'', PStr ''b'', PStr ''c''], 2)
   \<and> (\<exists>log. bucket_contents (recording demo_pages) ''demo'' 2 (0, [])
               = Some (Inr [PStr ''a'', PStr ''b'', PStr ''c''], 2, log)
          \<and> length log \<le> 2 \<and> chained log)"
proof -
  have st: "settles_within 2 demo_pages ''demo'' 2 (PStr []) 0"
    by (simp add: numeral_2_eq_2 demo_pages_def dict_getitem_def truthy_def)
  have run: "bucket_contents demo_pages ''demo'' 2 0
       = Some (Inr [PStr ''a'', PStr ''b'', PStr ''c''], 2)"
    by (simp add: page_simps demo_pages_def)
  from bucket_contents_terminates [OF st] st run show ?thesis by auto
qed

subsection \<open>A single page\<close>

text \<open>
  C8, amended. When the first page says it is not truncated, \<^verbatim>\<open>bucket_contents\<close>
  ends after exactly one request; when that page carries a list of entries the result
  is that list, in its order, and when the page has no \<^verbatim>\<open>Contents\<close> the call raises
  \<^verbatim>\<open>KeyError\<close>.
\<close>

theorem bucket_contents_single_page:
  assumes "list_objects_v2 s \<lparr>Bucket = name, MaxKeys = max_keys, ContinuationToken = PStr []\<rparr>
             = (Inr page, s')"
    and "dict_getitem page ''IsTruncated'' = Inr (PBool False)"
  shows "\<exists>out. bucket_contents list_objects_v2 name max_keys s = Some (out, s')
          \<and> bucket_contents (recording list_objects_v2) name max_keys (s, [])
            = Some (out, s',
                [(\<lparr>Bucket = name, MaxKeys = max_keys, ContinuationToken = PStr []\<rparr>, Inr page)])
          \<and> (\<forall>entries. dict_getitem page ''Contents'' = Inr (PList entries)
                \<longrightarrow> out = Inr entries)
          \<and> (map_of page ''Contents'' = None \<longrightarrow> out = Inl (KeyError ''Contents''))"
  using assms
  by (auto simp: bucket_contents_def while_True recording_def list_iadd_def iterate_def truthy_def
        dict_getitem_def split: sum.splits option.splits)

theorem bucket_contents_single_page_witness:
  "demo_single_page 0 \<lparr>Bucket = ''demo'', MaxKeys = 100, ContinuationToken = PStr []\<rparr>
     = (Inr [(''Contents'', PList [PStr ''a'', PStr ''b'', PStr ''c'']),
             (''IsTruncated'', PBool False)], 1)
   \<and> bucket_contents demo_single_page ''demo'' 100 0
     = Some (Inr [PStr ''a'', PStr ''b'', PStr ''c''], 1)
   \<and> bucket_contents (recording demo_single_page) ''demo'' 100 (0, [])
     = Some (Inr [PStr ''a'', PStr ''b'', PStr ''c''], 1,
         [(\<lparr>Bucket = ''demo'', MaxKeys = 100, ContinuationToken = PStr []\<rparr>,
           Inr [(''Contents'', PList [PStr ''a'', PStr ''b'', PStr ''c'']),
                (''IsTruncated'', PBool False)])])"
proof -
  let ?page = "[(''Contents'', PList [PStr ''a'', PStr ''b'', PStr ''c'']),
                (''IsTruncated'', PBool False)]"
  have p: "demo_single_page 0 \<lparr>Bucket = ''demo'', MaxKeys = 100, ContinuationToken = PStr []\<rparr>
      = (Inr ?page, 1)"
    by (simp add: demo_single_page_def)
  have t: "dict_getitem ?page ''IsTruncated'' = Inr (PBool False)"
    by (simp add: dict_getitem_def)
  have c: "dict_getitem ?page ''Contents'' = Inr (PList [PStr ''a'', PStr ''b'', PStr ''c''])"
    by (simp add: dict_getitem_def)
  from bucket_contents_single_page [of demo_single_page 0 "''demo''" 100 ?page 1] p t c
  show ?thesis by auto
qed

text \<open>
  As first stated the claim fails: the first page of a bucket that holds nothing
  says it is not truncated, one request is made, and no entries are returned: the
  call raises \<^verbatim>\<open>KeyError\<close>.
\<close>

theorem bucket_contents_single_page_counterexample:
  "demo_empty_bucket 0 \<lparr>Bucket = ''empty'', MaxKeys = 100, ContinuationToken = PStr []\<rparr>
     = (Inr [(''KeyCount'', PInt 0), (''IsTruncated'', PBool False)], 1)
   \<and> dict_getitem [(''KeyCount'', PInt 0), (''IsTruncated'', PBool False)] ''IsTruncated''
       = Inr (PBool False)
   \<and> bucket_contents (recording demo_empty_bucket) ''empty'' 100 (0, [])
       = Some (Inl (KeyError ''Contents''), 1,
           [(\<lparr>Bucket = ''empty'', MaxKeys = 100, ContinuationToken = PStr []\<rparr>,
             Inr [(''KeyCount'', PInt 0), (''IsTruncated'', PBool False)])])"
  by (simp add: page_simps demo_empty_bucket_def KeyError_def)

subsection \<open>Listing the buckets\<close>

text \<open>
  C9. Whatever dictionary the client returns, \<^verbatim>\<open>bucket_list\<close> returns its
  \<^verbatim>\<open>Buckets\<close> field when it has one and the empty list when it has none; it does not
  fail.
\<close>

theorem bucket_list_tolerant:
  assumes "list_buckets_extended s = (Inr rsp, s')"
  shows "bucket_list list_buckets_extended s
           = (Inr (case map_of rsp ''Buckets'' of Some buckets \<Rightarrow> buckets | None \<Rightarrow> PList []), s')"
proof (cases "map_of rsp ''Buckets''")
  case None
  then have "''Buckets'' \<notin> set (map fst rsp)"
    by (simp add: map_of_eq_None_iff)
  with assms None show ?thesis by (simp add: bucket_list_def)
next
  case (Some v)
  then have "''Buckets'' \<in> set (map fst rsp)"
    by (metis map_of_eq_None_iff option.distinct(1) set_map)
  with assms Some show ?thesis by (simp add: bucket_list_def dict_getitem_def)
qed

theorem bucket_list_tolerant_witness:
  "demo_list_buckets 0
     = (Inr [(''Owner'', PStr ''me''), (''Buckets'', PList [PStr ''demo'', PStr ''logs''])], 1)
   \<and> bucket_list demo_list_buckets 0 = (Inr (PList [PStr ''demo'', PStr ''logs'']), 1)"
proof -
  have r: "demo_list_buckets 0
     = (Inr [(''Owner'', PStr ''me''), (''Buckets'', PList [PStr ''demo'', PStr ''logs''])], 1)"
    by (simp add: demo_list_buckets_def)
  from bucket_list_tolerant [of demo_list_buckets 0 _ 1] r show ?thesis by simp
qed

subsection \<open>A page without entries\<close>

text \<open>
  C10. At any turn of the loop, whatever has been accumulated, a page without the
  \<^verbatim>\<open>Contents\<close> field makes \<^verbatim>\<open>bucket_contents\<close> raise \<^verbatim>\<open>KeyError\<close>: the page is not
  taken as empty and the entries accumulated so far are not returned.
\<close>

theorem bucket_contents_missing_Contents:
  assumes "list_objects_v2 s \<lparr>Bucket = name, MaxKeys = max_keys, ContinuationToken = token\<rparr>
             = (Inr page, s')"
    and "map_of page ''Contents'' = None"
  shows "bucket_contents_while list_objects_v2 name max_keys True token files s
           = Some (Inl (KeyError ''Contents''), s')
       \<and> (token = PStr [] \<longrightarrow>
            bucket_contents list_objects_v2 name max_keys s = Some (Inl (KeyError ''Contents''), s'))"
  using assms by (auto simp: bucket_contents_def while_True dict_getitem_def)

theorem bucket_contents_missing_Contents_witness:
  "demo_pages_then_empty 1 \<lparr>Bucket = ''demo'', MaxKeys = 2, ContinuationToken = PStr ''t1''\<rparr>
     = (Inr [(''KeyCount'', PInt 0), (''IsTruncated'', PBool False)], 2)
   \<and> map_of [(''KeyCount'', PInt 0), (''IsTruncated'', PBool False)] ''Contents'' = None
   \<and> bucket_contents_while demo_pages_then_empty ''demo'' 2 True (PStr ''t1'')
        [PStr ''a'', PStr ''b''] 1 = Some (Inl (KeyError ''Contents''), 2)
   \<and> bucket_contents demo_pages_then_empty ''demo'' 2 0 = Some (Inl (KeyError ''Contents''), 2)"
proof -
  have p: "demo_pages_then_empty 1 \<lparr>Bucket = ''demo'', MaxKeys = 2, ContinuationToken = PStr ''t1''\<rparr>
     = (Inr [(''KeyCount'', PInt 0), (''IsTruncated'', PBool False)], 2)"
    by (simp add: demo_pages_then_empty_def)
  have m: "map_of [(''KeyCount'', PInt 0), (''IsTruncated'', PBool False)] ''Contents'' = None"
    by simp
  have whole: "bucket_contents demo_pages_then_empty ''demo'' 2 0
      = Some (Inl (KeyError ''Contents''), 2)"
    by (simp add: page_simps demo_pages_then_empty_def KeyError_def)
  from bucket_contents_missing_Contents [of demo_pages_then_empty 1 "''demo''" 2 "PStr ''t1''"
      "[(''KeyCount'', PInt 0), (''IsTruncated'', PBool False)]" 2 "[PStr ''a'', PStr ''b'']"] p m
    whole
  show ?thesis by simp
qed

end
